theory Spec2Isabelle
  imports Main "HOL-Library.Sublist"
begin

section \<open>JavaScript values\<close>

text \<open>
  An optional string field or query parameter (\<open>string | undefined\<close>, \<open>string | null\<close>)
  is a \<open>string option\<close>. The sources test such values by truthiness: \<open>undefined\<close>,
  \<open>null\<close> and the empty string are falsy, every other string is truthy.
\<close>

definition truthy :: "string option \<Rightarrow> bool" where
  "truthy v = (case v of None \<Rightarrow> False | Some s \<Rightarrow> s \<noteq> [])"

text \<open>Decimal rendering of a non-negative integer, as a template literal prints it.\<close>

definition digit_char :: "nat \<Rightarrow> char" where
  "digit_char d = ''0123456789'' ! d"

fun show_nat :: "nat \<Rightarrow> string" where
  "show_nat n = (if n < 10 then [digit_char n] else show_nat (n div 10) @ [digit_char (n mod 10)])"

declare show_nat.simps [simp del]

section \<open>utils: formatBytes, getFileInfo\<close>

text \<open>
  \<open>formatBytes\<close> of the source:
  \<^verbatim>\<open>
  if (bytes === 0) return '0 B';
  const k = 1024;
  const sizes = ['B', 'KB', 'MB', 'GB', 'TB'];
  const i = Math.floor(Math.log(bytes) / Math.log(k));
  return `${parseFloat((bytes / Math.pow(k, i)).toFixed(2))} ${sizes[i]}`;
  \<close>
  The byte count is a non-negative integer (a file size). The model computes in exact
  arithmetic: \<open>log_floor\<close> is the exact \<open>\<lfloor>log\<^bsub>1024\<^esub> bytes\<rfloor>\<close>, where the source
  divides two double-precision logarithms. The two agree wherever the quotient of the
  doubles is not within rounding distance of an integer; they can differ for byte
  counts a few units below a power of 1024 (in double arithmetic
  \<open>log (2^50 - 1) / log 1024\<close> evaluates to \<open>5\<close>). The model is evaluated below at
  inputs away from such boundaries only. The division by a power of two and \<open>toFixed\<close>
  are exact for byte counts below \<open>2^53\<close>.
\<close>

definition sizes :: "string list" where
  "sizes = [''B'', ''KB'', ''MB'', ''GB'', ''TB'']"

text \<open>\<open>sizes[i]\<close>: an index outside the array reads \<open>undefined\<close>, which the template
  literal prints as the text \<open>undefined\<close>.\<close>

definition sizes_at :: "nat \<Rightarrow> string" where
  "sizes_at i = (if i < length sizes then sizes ! i else ''undefined'')"

fun log_floor :: "nat \<Rightarrow> nat" where
  "log_floor n = (if n < 1024 then 0 else Suc (log_floor (n div 1024)))"

declare log_floor.simps [simp del]

text \<open>
  \<open>(bytes / k^i).toFixed(2)\<close> picks the integer \<open>n\<close> of hundredths closest to the value, the
  larger one on a tie; \<open>parseFloat\<close> followed by the template literal prints it without
  trailing zeros.
\<close>

definition toFixed2 :: "nat \<Rightarrow> nat \<Rightarrow> nat" where
  "toFixed2 bytes d = (200 * bytes + d) div (2 * d)"

definition show_hundredths :: "nat \<Rightarrow> string" where
  "show_hundredths n =
     show_nat (n div 100) @
     (if n mod 100 = 0 then []
      else if n mod 10 = 0 then CHR ''.'' # [digit_char (n mod 100 div 10)]
      else CHR ''.'' # [digit_char (n mod 100 div 10), digit_char (n mod 10)])"

definition formatBytes :: "nat \<Rightarrow> string" where
  "formatBytes bytes =
     (if bytes = 0 then ''0 B''
      else let i = log_floor bytes in
        show_hundredths (toFixed2 bytes (1024 ^ i)) @ '' '' @ sizes_at i)"

text \<open>
  The file system is a map from paths to the contents of the regular files.
  \<open>fs.statSync\<close> throws on a path with no file; \<open>path.basename\<close> is the last segment of
  the path, trailing separators dropped.
\<close>

type_synonym filesystem = "string \<rightharpoonup> string"

datatype js_error = Error string

record file_info =
  name :: string
  size_bytes :: nat
  sizeFormatted :: string

definition basename :: "string \<Rightarrow> string" where
  "basename p =
     rev (takeWhile (\<lambda>c. c \<noteq> CHR ''/'') (dropWhile (\<lambda>c. c = CHR ''/'') (rev p)))"

definition getFileInfo :: "filesystem \<Rightarrow> string \<Rightarrow> js_error + file_info" where
  "getFileInfo fs path =
     (case fs path of
        None \<Rightarrow> Inl (Error ''ENOENT'')
      | Some content \<Rightarrow>
          Inr \<lparr>name = basename path, size_bytes = length content,
               sizeFormatted = formatBytes (length content)\<rparr>)"

section \<open>server: FileServer\<close>

subsection \<open>Responses\<close>

text \<open>
  An HTTP response as the handlers drive it: the status code (200 until \<open>res.status\<close>
  changes it), the headers set with \<open>res.setHeader\<close>, the body bytes written so far,
  whether the head has gone out (\<open>res.headersSent\<close>) and whether the response has been
  ended. The headers Express adds by itself are not modelled.
\<close>

datatype header_value = HStr string | HNum nat

text \<open>
  \<open>res.setHeader\<close> refuses a value with a character outside the tab, \<open>0x20\<close> to \<open>0x7E\<close>
  and \<open>0x80\<close> to \<open>0xFF\<close>, and throws \<open>ERR_INVALID_CHAR\<close>. A string is the list of its
  code units, which the type \<open>char\<close> has up to \<open>0xFF\<close>: the refused ones among them are
  the control characters other than the tab. A string with a code unit from \<open>0x100\<close> on,
  which \<open>res.setHeader\<close> refuses as well, has no counterpart in the model.
\<close>

definition invalid_header_chars :: "char list" where
  "invalid_header_chars =
     [CHR 0x00, CHR 0x01, CHR 0x02, CHR 0x03, CHR 0x04, CHR 0x05, CHR 0x06, CHR 0x07,
      CHR 0x08, CHR 0x0A, CHR 0x0B, CHR 0x0C, CHR 0x0D, CHR 0x0E, CHR 0x0F,
      CHR 0x10, CHR 0x11, CHR 0x12, CHR 0x13, CHR 0x14, CHR 0x15, CHR 0x16, CHR 0x17,
      CHR 0x18, CHR 0x19, CHR 0x1A, CHR 0x1B, CHR 0x1C, CHR 0x1D, CHR 0x1E, CHR 0x1F,
      CHR 0x7F]"

definition valid_header_text :: "string \<Rightarrow> bool" where
  "valid_header_text v = list_all (\<lambda>c. c \<notin> set invalid_header_chars) v"

fun valid_header_value :: "header_value \<Rightarrow> bool" where
  "valid_header_value (HStr v) = valid_header_text v"
| "valid_header_value (HNum n) = True"

record response =
  statusCode :: nat
  headers :: "(string \<times> header_value) list"
  body :: string
  headersSent :: bool
  ended :: bool

definition new_response :: response where
  "new_response = \<lparr>statusCode = 200, headers = [], body = [], headersSent = False, ended = False\<rparr>"

definition store_header :: "string \<Rightarrow> header_value \<Rightarrow> response \<Rightarrow> response" where
  "store_header k v r = r\<lparr>headers := (k, v) # filter (\<lambda>kv. fst kv \<noteq> k) (headers r)\<rparr>"

definition setHeader :: "string \<Rightarrow> header_value \<Rightarrow> response \<Rightarrow> js_error + response" where
  "setHeader k v r =
     (if valid_header_value v then Inr (store_header k v r) else Inl (Error ''ERR_INVALID_CHAR''))"

definition getHeader :: "response \<Rightarrow> string \<Rightarrow> header_value option" where
  "getHeader r k = map_of (headers r) k"

text \<open>
  \<open>res.status(code).send(text)\<close>: the whole response goes out at once. The headers
  that Express computes for the text are among those not modelled.
\<close>

definition send :: "nat \<Rightarrow> string \<Rightarrow> response \<Rightarrow> response" where
  "send code msg r =
     r\<lparr>statusCode := code, body := msg, headersSent := True, ended := True\<rparr>"

text \<open>What \<open>fileStream.pipe(res)\<close> does with a chunk and at the end of the stream.\<close>

definition res_write :: "string \<Rightarrow> response \<Rightarrow> response" where
  "res_write chunk r = r\<lparr>body := body r @ chunk, headersSent := True\<rparr>"

definition end_response :: "response \<Rightarrow> response" where
  "end_response r = r\<lparr>headersSent := True, ended := True\<rparr>"

subsection \<open>The server object and its requests\<close>

text \<open>
  \<open>this.server\<close> holds the listener that \<open>app.listen\<close> returned, bound or not.
\<close>

record listener =
  lport :: nat
  listening :: bool

record file_server =
  filePath :: string
  passwordHash :: "string option"
  port :: nat
  server :: "listener option"
  downloadCount :: nat

record server_options =
  opt_filePath :: string
  opt_password :: "string option"
  opt_port :: "nat option"

text \<open>
  The constructor. \<open>bcrypt.hashSync\<close> is the library's, taken as the parameter
  \<open>hashSync\<close>; the cost factor 10 is part of it. \<open>options.port || 3000\<close> replaces a
  missing port and the port 0.
\<close>

definition FileServer :: "(string \<Rightarrow> string) \<Rightarrow> server_options \<Rightarrow> file_server" where
  "FileServer hashSync options =
     \<lparr>filePath = opt_filePath options,
      passwordHash =
        (case opt_password options of
           None \<Rightarrow> None
         | Some p \<Rightarrow> if truthy (Some p) then Some (hashSync p) else None),
      port = (case opt_port options of None \<Rightarrow> 3000 | Some n \<Rightarrow> if n = 0 then 3000 else n),
      server = None,
      downloadCount = 0\<rparr>"

text \<open>
  The events the server emits. The percentage that \<open>downloadProgress\<close> carries besides
  the two byte counts is a floating-point function of them and is left out.
\<close>

datatype server_event =
    DownloadStarted
  | DownloadProgress nat nat
  | DownloadComplete nat nat nat
  | DownloadError

text \<open>
  The file stream of a request. It is \<open>Flowing\<close> from \<open>fileStream.pipe(res)\<close> on: its
  \<open>data\<close>, \<open>end\<close> and \<open>error\<close> listeners can run. When the client closes the connection,
  the response emits \<open>close\<close>, on which \<open>pipe\<close> unpipes the response and pauses the file
  stream: a \<open>Paused\<close> stream, which nothing resumes, emits neither \<open>data\<close> nor \<open>end\<close>
  any more, only an \<open>error\<close> if a read fails. A request without file stream, and one whose
  stream has ended or failed, is \<open>Finished\<close>.
\<close>

datatype stream_state = Flowing | Paused | Finished

text \<open>
  One request to \<open>/download\<close>: its response, the variables its handler closes over
  (\<open>downloadedBytes\<close>, \<open>fileInfo.size\<close>), and the state of its file stream.
\<close>

record transfer =
  res :: response
  downloadedBytes :: nat
  total_bytes :: nat
  stream :: stream_state

definition flowing :: "transfer \<Rightarrow> bool" where
  "flowing t = (stream t = Flowing)"

record world =
  srv :: file_server
  requests :: "transfer list"
  emitted :: "server_event list"

definition new_world :: "file_server \<Rightarrow> world" where
  "new_world s = \<lparr>srv = s, requests = [], emitted = []\<rparr>"

definition respond :: "response \<Rightarrow> world \<Rightarrow> world" where
  "respond r w =
     w\<lparr>requests := requests w @
         [\<lparr>res = r, downloadedBytes = 0, total_bytes = 0, stream = Finished\<rparr>]\<rparr>"

subsection \<open>GET /download\<close>

text \<open>
  The password block of the handler; \<open>Some r\<close> is the response of an early return.
  \<open>bcrypt.compare\<close> is the parameter \<open>compare\<close>. The query parameter has the type the
  source gives it, \<open>string\<close> or absent.
\<close>

definition check_password ::
  "(string \<Rightarrow> string \<Rightarrow> bool) \<Rightarrow> file_server \<Rightarrow> string option \<Rightarrow> response option" where
  "check_password compare s password =
     (case passwordHash s of
        None \<Rightarrow> None
      | Some h \<Rightarrow>
          if \<not> truthy (Some h) then None
          else (case password of
                  None \<Rightarrow> Some (send 401 ''Password required'' new_response)
                | Some p \<Rightarrow>
                    if \<not> truthy (Some p) then Some (send 401 ''Password required'' new_response)
                    else if \<not> compare p h then Some (send 401 ''Invalid password'' new_response)
                    else None))"

definition dquote :: char where
  "dquote = CHR 0x22"

definition disposition :: "file_info \<Rightarrow> header_value" where
  "disposition fileInfo = HStr (''attachment; filename='' @ [dquote] @ name fileInfo @ [dquote])"

text \<open>
  The three calls of \<open>res.setHeader\<close> in their order. When one throws, the result is
  \<open>Inl\<close> of the response as it was then, for the \<open>catch\<close> block.
\<close>

definition download_headers :: "file_info \<Rightarrow> response \<Rightarrow> response + response" where
  "download_headers fileInfo r =
     (case setHeader ''Content-Type'' (HStr ''application/octet-stream'') r of
        Inl e \<Rightarrow> Inl r
      | Inr r1 \<Rightarrow>
          (case setHeader ''Content-Disposition'' (disposition fileInfo) r1 of
             Inl e \<Rightarrow> Inl r1
           | Inr r2 \<Rightarrow>
               (case setHeader ''Content-Length'' (HNum (size_bytes fileInfo)) r2 of
                  Inl e \<Rightarrow> Inl r2
                | Inr r3 \<Rightarrow> Inr r3)))"

text \<open>
  The handler up to \<open>fileStream.pipe(res)\<close>. A throwing \<open>getFileInfo\<close> or
  \<open>res.setHeader\<close> lands in the \<open>catch\<close> block, where no head has been sent yet, before
  \<open>downloadStarted\<close> is emitted and before any listener is on the file stream, which
  \<open>fs.createReadStream\<close> has created by then and which stays unread. The new request is
  appended to \<open>requests\<close>; its index identifies its file stream.
\<close>

definition get_download ::
  "(string \<Rightarrow> string \<Rightarrow> bool) \<Rightarrow> filesystem \<Rightarrow> string option \<Rightarrow> world \<Rightarrow> world" where
  "get_download compare fs password w =
     (case check_password compare (srv w) password of
        Some r \<Rightarrow> respond r w
      | None \<Rightarrow>
          (case getFileInfo fs (filePath (srv w)) of
             Inl e \<Rightarrow> respond (send 500 ''Error downloading file'' new_response) w
           | Inr fileInfo \<Rightarrow>
               (case download_headers fileInfo new_response of
                  Inl r \<Rightarrow> respond (send 500 ''Error downloading file'' r) w
                | Inr r \<Rightarrow>
                    w\<lparr>requests := requests w @
                          [\<lparr>res = r, downloadedBytes = 0,
                            total_bytes = size_bytes fileInfo, stream = Flowing\<rparr>],
                       emitted := emitted w @ [DownloadStarted]\<rparr>)))"

text \<open>The \<open>data\<close> listener of the handler, then the write of \<open>pipe\<close>.\<close>

definition on_data :: "nat \<Rightarrow> string \<Rightarrow> world \<Rightarrow> world" where
  "on_data i chunk w =
     (if i < length (requests w) \<and> flowing (requests w ! i) then
        let t = requests w ! i;
            d = downloadedBytes t + length chunk
        in w\<lparr>requests := (requests w)[i := t\<lparr>downloadedBytes := d, res := res_write chunk (res t)\<rparr>],
             emitted := emitted w @ [DownloadProgress d (total_bytes t)]\<rparr>
      else w)"

text \<open>The \<open>end\<close> listener of the handler, then \<open>pipe\<close> ends the response.\<close>

definition on_end :: "nat \<Rightarrow> world \<Rightarrow> world" where
  "on_end i w =
     (if i < length (requests w) \<and> flowing (requests w ! i) then
        let t = requests w ! i;
            c = downloadCount (srv w) + 1
        in w\<lparr>srv := (srv w)\<lparr>downloadCount := c\<rparr>,
             requests := (requests w)[i := t\<lparr>res := end_response (res t), stream := Finished\<rparr>],
             emitted := emitted w @ [DownloadComplete (downloadedBytes t) (total_bytes t) c]\<rparr>
      else w)"

text \<open>
  The \<open>error\<close> listener; \<open>pipe\<close> leaves the response as it is. A paused stream can
  fail as well.
\<close>

definition on_error :: "nat \<Rightarrow> world \<Rightarrow> world" where
  "on_error i w =
     (if i < length (requests w) \<and> stream (requests w ! i) \<noteq> Finished then
        let t = requests w ! i;
            r = (if \<not> headersSent (res t) then send 500 ''Error downloading file'' (res t)
                 else res t)
        in w\<lparr>requests := (requests w)[i := t\<lparr>res := r, stream := Finished\<rparr>],
             emitted := emitted w @ [DownloadError]\<rparr>
      else w)"

text \<open>
  The client closes the connection of request \<open>i\<close>. The handler has no listener for it;
  \<open>pipe\<close> has: it pauses a flowing file stream.
\<close>

definition on_close :: "nat \<Rightarrow> world \<Rightarrow> world" where
  "on_close i w =
     (if i < length (requests w) \<and> flowing (requests w ! i) then
        w\<lparr>requests := (requests w)[i := (requests w ! i)\<lparr>stream := Paused\<rparr>]\<rparr>
      else w)"

definition getDownloadCount :: "file_server \<Rightarrow> nat" where
  "getDownloadCount s = downloadCount s"

text \<open>
  What reaches the server while it runs: a request to \<open>/download\<close> with its password
  query parameter, the events of the file stream of request \<open>i\<close>, and the close of the
  connection of request \<open>i\<close> by its client. The callbacks run one at a time, in the order
  the event loop delivers them.
\<close>

datatype input =
    Get_download "string option"
  | Stream_data nat string
  | Stream_end nat
  | Stream_error nat
  | Client_close nat

fun step ::
  "(string \<Rightarrow> string \<Rightarrow> bool) \<Rightarrow> filesystem \<Rightarrow> world \<Rightarrow> input \<Rightarrow> world" where
  "step compare fs w (Get_download password) = get_download compare fs password w"
| "step compare fs w (Stream_data i chunk) = on_data i chunk w"
| "step compare fs w (Stream_end i) = on_end i w"
| "step compare fs w (Stream_error i) = on_error i w"
| "step compare fs w (Client_close i) = on_close i w"

definition run ::
  "(string \<Rightarrow> string \<Rightarrow> bool) \<Rightarrow> filesystem \<Rightarrow> world \<Rightarrow> input list \<Rightarrow> world" where
  "run compare fs w ins = foldl (step compare fs) w ins"

text \<open>
  A download that the server has served to the end of the file stream: a response with
  status 200 that \<open>pipe\<close> has ended.
\<close>

definition served_to_end :: "transfer \<Rightarrow> bool" where
  "served_to_end t = (statusCode (res t) = 200 \<and> ended (res t))"

text \<open>
  A download that its client has received in full: a response with status 200 whose head
  has gone out and whose body has the length that its \<open>Content-Length\<close> announces. The
  client needs no end of the response to know that it has the whole file.
\<close>

definition delivered :: "transfer \<Rightarrow> bool" where
  "delivered t =
     (statusCode (res t) = 200 \<and> headersSent (res t) \<and>
      getHeader (res t) ''Content-Length'' = Some (HNum (length (body (res t)))))"

subsection \<open>start and stop\<close>

text \<open>
  The network is a function from a port to what \<open>app.listen\<close> on it does: the listener
  binds, it emits an \<open>error\<close> event with a code (\<open>EADDRINUSE\<close> on a port conflict), or
  the call itself throws.
\<close>

datatype bind_result = Bound | Error_event string | Throws string

text \<open>
  What becomes of the promise that \<open>start\<close> returns. An \<open>error\<close> event on a listener
  that has no \<open>error\<close> listener, or an exception inside an event listener, is thrown at
  the top level of the process: the promise is never settled (\<open>Uncaught\<close>).
\<close>

datatype start_outcome = Resolved_port nat | Rejected_start string | Uncaught string

text \<open>
  \<open>start\<close> of the source:
  \<^verbatim>\<open>
  this.server = this.app.listen(this.port, () => { resolve(this.port); });
  this.server.on('error', (error) => {
    if (error.code === 'EADDRINUSE') {
      this.port++;
      this.server = this.app.listen(this.port, () => { resolve(this.port); });
    } else { reject(error); }
  });
  \<close>
  The callback of \<open>app.listen\<close> runs when the listener is bound. The \<open>error\<close>
  listener is registered on the first listener only; the listener of the second
  \<open>app.listen\<close> has none.
\<close>

definition start :: "(nat \<Rightarrow> bind_result) \<Rightarrow> file_server \<Rightarrow> file_server \<times> start_outcome" where
  "start net s =
     (case net (port s) of
        Throws e \<Rightarrow> (s, Rejected_start e)
      | Bound \<Rightarrow>
          (s\<lparr>server := Some \<lparr>lport = port s, listening = True\<rparr>\<rparr>, Resolved_port (port s))
      | Error_event code \<Rightarrow>
          let s1 = s\<lparr>server := Some \<lparr>lport = port s, listening = False\<rparr>\<rparr> in
          if code = ''EADDRINUSE'' then
            let s2 = s1\<lparr>port := port s1 + 1\<rparr> in
            (case net (port s2) of
               Throws e \<Rightarrow> (s2, Uncaught e)
             | Bound \<Rightarrow>
                 (s2\<lparr>server := Some \<lparr>lport = port s2, listening = True\<rparr>\<rparr>,
                  Resolved_port (port s2))
             | Error_event code2 \<Rightarrow>
                 (s2\<lparr>server := Some \<lparr>lport = port s2, listening = False\<rparr>\<rparr>, Uncaught code2))
          else (s1, Rejected_start code))"

text \<open>
  \<open>stop\<close> returns a promise that has no reject path. \<open>server.close\<close> stops a bound
  listener and calls back; on a listener that is not bound it calls back with an error
  argument, which the callback of the source ignores.
\<close>

datatype stop_outcome = Resolved_stop

definition stop :: "file_server \<Rightarrow> file_server \<times> stop_outcome" where
  "stop s =
     (case server s of
        Some l \<Rightarrow> (s\<lparr>server := Some (l\<lparr>listening := False\<rparr>)\<rparr>, Resolved_stop)
      | None \<Rightarrow> (s, Resolved_stop))"

section \<open>tunnel: CloudflareTunnel\<close>

subsection \<open>The URL pattern\<close>

text \<open>
  The regular expression \<^verbatim>\<open>/https:\/\/[a-zA-Z0-9-]+\.trycloudflare\.com/\<close>. A match at a
  position is the scheme, the longest run of label characters, which must not be empty,
  and the domain suffix: the character after the run has to be the dot, which is no label
  character, so no shorter run can match. \<open>String.match\<close> returns the match at the
  leftmost position that has one.
\<close>

definition is_label_char :: "char \<Rightarrow> bool" where
  "is_label_char c =
     (c \<in> set ''abcdefghijklmnopqrstuvwxyzABCDEFGHIJKLMNOPQRSTUVWXYZ0123456789-'')"

definition url_scheme :: string where
  "url_scheme = ''https://''"

definition url_suffix :: string where
  "url_suffix = ''.trycloudflare.com''"

definition match_here :: "string \<Rightarrow> string option" where
  "match_here s =
     (if prefix url_scheme s then
        let r = drop (length url_scheme) s;
            label = takeWhile is_label_char r
        in if label \<noteq> [] \<and> prefix url_suffix (dropWhile is_label_char r)
           then Some (url_scheme @ label @ url_suffix) else None
      else None)"

fun match_url :: "string \<Rightarrow> string option" where
  "match_url [] = None"
| "match_url (c # cs) =
     (case match_here (c # cs) of Some u \<Rightarrow> Some u | None \<Rightarrow> match_url cs)"

text \<open>The language of the pattern, for comparison with the matcher.\<close>

definition is_tunnel_url :: "string \<Rightarrow> bool" where
  "is_tunnel_url u =
     (\<exists>label. label \<noteq> [] \<and> (\<forall>c \<in> set label. is_label_char c) \<and>
        u = url_scheme @ label @ url_suffix)"

subsection \<open>The tunnel object and one call of start\<close>

text \<open>
  The promise of \<open>start\<close> is settled by the first \<open>resolve\<close> or \<open>reject\<close>; later calls
  have no effect.
\<close>

datatype promise = Pending | Resolved string | Rejected string

definition settle :: "promise \<Rightarrow> promise \<Rightarrow> promise" where
  "settle v p = (if p = Pending then v else p)"

text \<open>
  The fields of the object (\<open>process\<close>, \<open>tunnelUrl\<close>), the variable \<open>stderr\<close> and the
  promise of the running \<open>start\<close>, and the exit codes passed on by \<open>this.emit('exit', code)\<close>.
  The process handle is modelled by its presence. An exit code is a number, or \<open>null\<close>
  when a signal ended the process.
\<close>

record tunnel =
  process :: bool
  tunnelUrl :: "string option"
  stderr :: string
  started :: promise
  exits :: "nat option list"

definition CloudflareTunnel :: tunnel where
  "CloudflareTunnel =
     \<lparr>process = False, tunnelUrl = None, stderr = [], started = Pending, exits = []\<rparr>"

text \<open>
  \<open>start\<close> up to the registration of the listeners: the process is spawned, and the
  call has its own \<open>stderr\<close> and promise. \<open>tunnelUrl\<close> is not touched.
\<close>

definition tunnel_start :: "tunnel \<Rightarrow> tunnel" where
  "tunnel_start t = t\<lparr>process := True, stderr := [], started := Pending\<rparr>"

definition parseForUrl :: "string \<Rightarrow> tunnel \<Rightarrow> tunnel" where
  "parseForUrl output t =
     (case match_url output of
        Some u \<Rightarrow>
          if \<not> truthy (tunnelUrl t)
          then t\<lparr>tunnelUrl := Some u, started := settle (Resolved u) (started t)\<rparr>
          else t
      | None \<Rightarrow> t)"

definition tunnel_stop :: "tunnel \<Rightarrow> tunnel" where
  "tunnel_stop t = (if process t then t\<lparr>process := False, tunnelUrl := None\<rparr> else t)"

definition show_code :: "nat option \<Rightarrow> string" where
  "show_code code = (case code of None \<Rightarrow> ''null'' | Some n \<Rightarrow> show_nat n)"

definition exit_message :: "nat option \<Rightarrow> string \<Rightarrow> string" where
  "exit_message code err =
     ''cloudflared exited with code '' @ show_code code @
       (if err \<noteq> [] then '': '' @ err else [])"

definition on_exit :: "nat option \<Rightarrow> tunnel \<Rightarrow> tunnel" where
  "on_exit code t =
     (let t1 = (if code \<noteq> Some 0 \<and> \<not> truthy (tunnelUrl t)
                then t\<lparr>started := settle (Rejected (exit_message code (stderr t))) (started t)\<rparr>
                else t)
      in t1\<lparr>exits := exits t1 @ [code]\<rparr>)"

definition timeout_message :: string where
  "timeout_message = ''Timeout waiting for tunnel URL. Make sure cloudflared is installed.''"

definition on_timeout :: "tunnel \<Rightarrow> tunnel" where
  "on_timeout t =
     (if \<not> truthy (tunnelUrl t)
      then (tunnel_stop t)\<lparr>started := settle (Rejected timeout_message) (started t)\<rparr>
      else t)"

text \<open>
  What happens to a tunnel after \<open>start\<close> has spawned the process: output on either
  stream, the \<open>error\<close> and \<open>exit\<close> events of the process, the 30 second timer, and a
  call of \<open>stop\<close>.
\<close>

datatype tunnel_input =
    Stdout string
  | Stderr string
  | Process_error string
  | Exit "nat option"
  | Timeout
  | Stop

fun tunnel_step :: "tunnel \<Rightarrow> tunnel_input \<Rightarrow> tunnel" where
  "tunnel_step t (Stdout output) = parseForUrl output t"
| "tunnel_step t (Stderr output) = parseForUrl output (t\<lparr>stderr := stderr t @ output\<rparr>)"
| "tunnel_step t (Process_error m) =
     t\<lparr>started := settle (Rejected (''Failed to start cloudflared: '' @ m)) (started t)\<rparr>"
| "tunnel_step t (Exit code) = on_exit code t"
| "tunnel_step t Timeout = on_timeout t"
| "tunnel_step t Stop = tunnel_stop t"

definition tunnel_run :: "tunnel \<Rightarrow> tunnel_input list \<Rightarrow> tunnel" where
  "tunnel_run t ins = foldl tunnel_step t ins"

definition getUrl :: "tunnel \<Rightarrow> string option" where
  "getUrl t = tunnelUrl t"

definition isRunning :: "tunnel \<Rightarrow> bool" where
  "isRunning t = (process t \<and> tunnelUrl t \<noteq> None)"

text \<open>The output of an input, if it is one, and the first match of a list of outputs.\<close>

fun output_of :: "tunnel_input \<Rightarrow> string option" where
  "output_of (Stdout output) = Some output"
| "output_of (Stderr output) = Some output"
| "output_of _ = None"

fun first_match :: "string list \<Rightarrow> string option" where
  "first_match [] = None"
| "first_match (output # rest) =
     (case match_url output of Some u \<Rightarrow> Some u | None \<Rightarrow> first_match rest)"

section \<open>Vocabulary of the properties\<close>

text \<open>The entry that the handler of one request to \<open>/download\<close> creates.\<close>

definition download_reply ::
  "(string \<Rightarrow> string \<Rightarrow> bool) \<Rightarrow> filesystem \<Rightarrow> string option \<Rightarrow> world \<Rightarrow> transfer" where
  "download_reply compare fs password w = last (requests (get_download compare fs password w))"

text \<open>
  The response of a download of a file with the name \<open>fname\<close> and \<open>n\<close> bytes, once the
  handler has set its three headers.
\<close>

definition download_head :: "string \<Rightarrow> nat \<Rightarrow> response" where
  "download_head fname n =
     store_header ''Content-Length'' (HNum n)
       (store_header ''Content-Disposition''
          (HStr (''attachment; filename='' @ [dquote] @ fname @ [dquote]))
          (store_header ''Content-Type'' (HStr ''application/octet-stream'') new_response))"


text \<open>An input completes a download stream: the \<open>end\<close> event of a stream that is flowing.\<close>

fun completes :: "world \<Rightarrow> input \<Rightarrow> bool" where
  "completes w (Stream_end i) = (i < length (requests w) \<and> flowing (requests w ! i))"
| "completes w _ = False"

text \<open>
  The invariant behind the download counter: a request whose stream is not finished has
  status 200 and an open response, and the counter is the number of downloads served to
  the end.
\<close>

definition stream_ok :: "transfer \<Rightarrow> bool" where
  "stream_ok t =
     (if stream t = Finished then True else statusCode (res t) = 200 \<and> \<not> ended (res t))"

text \<open>A request that the counter has not counted and, its stream not flowing, never will.\<close>

definition left_out :: "transfer \<Rightarrow> bool" where
  "left_out t = (stream t \<noteq> Flowing \<and> \<not> served_to_end t)"

definition count_ok :: "world \<Rightarrow> bool" where
  "count_ok w =
     (list_all stream_ok (requests w) \<and>
      downloadCount (srv w) = length (filter served_to_end (requests w)))"

text \<open>The inputs of a tunnel that are output of the subprocess, and what came on stderr.\<close>

fun is_output :: "tunnel_input \<Rightarrow> bool" where
  "is_output (Stdout output) = True"
| "is_output (Stderr output) = True"
| "is_output _ = False"

definition only_outputs :: "tunnel_input list \<Rightarrow> bool" where
  "only_outputs ins = list_all is_output ins"

definition outputs :: "tunnel_input list \<Rightarrow> string list" where
  "outputs ins = List.map_filter output_of ins"

fun stderr_of :: "tunnel_input \<Rightarrow> string option" where
  "stderr_of (Stderr output) = Some output"
| "stderr_of _ = None"

definition captured_stderr :: "tunnel_input list \<Rightarrow> string" where
  "captured_stderr ins = concat (List.map_filter stderr_of ins)"

text \<open>A tunnel right after \<open>start\<close> has spawned the process.\<close>

definition spawned :: tunnel where
  "spawned = tunnel_start CloudflareTunnel"

subsection \<open>Concrete inputs\<close>

text \<open>
  A stand-in for bcrypt at concrete inputs: a hash that keeps the password readable, and
  the comparison that goes with it.
\<close>

definition sample_hashSync :: "string \<Rightarrow> string" where
  "sample_hashSync p = ''$2b$10$'' @ p"

definition sample_compare :: "string \<Rightarrow> string \<Rightarrow> bool" where
  "sample_compare p h = (sample_hashSync p = h)"

text \<open>A comparison that accepts every password.\<close>

definition accept_all :: "string \<Rightarrow> string \<Rightarrow> bool" where
  "accept_all p h = True"

definition sample_fs :: filesystem where
  "sample_fs = [''/srv/notes.txt'' \<mapsto> ''hello world'']"

definition protected_options :: server_options where
  "protected_options =
     \<lparr>opt_filePath = ''/srv/notes.txt'', opt_password = Some ''secret'', opt_port = None\<rparr>"

definition open_options :: server_options where
  "open_options = \<lparr>opt_filePath = ''/srv/notes.txt'', opt_password = None, opt_port = None\<rparr>"

definition empty_password_options :: server_options where
  "empty_password_options =
     \<lparr>opt_filePath = ''/srv/notes.txt'', opt_password = Some [], opt_port = None\<rparr>"

definition protected_world :: world where
  "protected_world = new_world (FileServer sample_hashSync protected_options)"

definition open_world :: world where
  "open_world = new_world (FileServer sample_hashSync open_options)"




text \<open>
  A download whose client has the whole file after the one chunk and closes the
  connection before the file stream has emitted \<open>end\<close>.
\<close>

definition early_close :: "input list" where
  "early_close = [Get_download None, Stream_data 0 ''hello world'', Client_close 0]"



text \<open>
  Requests to the server with the password \<open>secret\<close>: one without password, one with a
  wrong password, and three with the right one, of which the first and the last complete
  and the second fails after its first chunk.
\<close>

definition mixed_requests :: "input list" where
  "mixed_requests =
     [Get_download None, Get_download (Some ''secret''), Get_download (Some ''guess''),
      Get_download (Some ''secret''), Stream_data 1 ''hello world'',
      Get_download (Some ''secret''), Stream_data 3 ''hello '', Stream_end 1,
      Stream_error 3, Stream_data 4 ''hello world'', Stream_end 4]"

text \<open>The ports 3000 and 3001 are taken, every other port is free.\<close>

definition busy_net :: "nat \<Rightarrow> bind_result" where
  "busy_net p = (if p = 3000 \<or> p = 3001 then Error_event ''EADDRINUSE'' else Bound)"

text \<open>
  Other networks: every port free; the port 3002 held by a first server; no permission
  to bind; a port number that \<open>listen\<close> refuses.
\<close>

definition free_net :: "nat \<Rightarrow> bind_result" where
  "free_net p = Bound"

definition first_server_net :: "nat \<Rightarrow> bind_result" where
  "first_server_net p = (if p = 3002 then Error_event ''EADDRINUSE'' else Bound)"

definition denied_net :: "nat \<Rightarrow> bind_result" where
  "denied_net p = Error_event ''EACCES''"

definition refusing_net :: "nat \<Rightarrow> bind_result" where
  "refusing_net p = Throws ''ERR_SOCKET_BAD_PORT''"

definition second_server :: file_server where
  "second_server =
     FileServer sample_hashSync
       \<lparr>opt_filePath = ''/srv/notes.txt'', opt_password = None, opt_port = Some 3002\<rparr>"

definition quiet_exit :: "tunnel_input list" where
  "quiet_exit = [Stderr ''ERR failed to request quick Tunnel'']"



section \<open>Properties of formatBytes\<close>

lemmas formatBytes_eval =
  formatBytes_def log_floor.simps toFixed2_def show_hundredths_def show_nat.simps
  digit_char_def sizes_at_def sizes_def

text \<open>\<open>log_floor\<close> is the exponent of the largest power of 1024 below or at its argument.\<close>

lemma log_floor_lower: "0 < n \<Longrightarrow> 1024 ^ log_floor n \<le> n"
proof (induction n rule: log_floor.induct)
  case (1 n)
  show ?case
  proof (cases "n < 1024")
    case True
    with "1.prems" show ?thesis by (simp add: log_floor.simps)
  next
    case False
    then have "0 < n div 1024" by (simp add: div_greater_zero_iff)
    with "1.IH" False have "1024 ^ log_floor (n div 1024) \<le> n div 1024" by simp
    then have "1024 * 1024 ^ log_floor (n div 1024) \<le> 1024 * (n div 1024)" by simp
    also have "\<dots> \<le> n" by simp
    finally show ?thesis using False by (simp add: log_floor.simps [of n])
  qed
qed

lemma log_floor_upper: "n < 1024 ^ Suc (log_floor n)"
proof (induction n rule: log_floor.induct)
  case (1 n)
  show ?case
  proof (cases "n < 1024")
    case True
    then show ?thesis by (simp add: log_floor.simps)
  next
    case False
    with "1.IH" have "n div 1024 < 1024 ^ Suc (log_floor (n div 1024))" by simp
    then have "n < 1024 * 1024 ^ Suc (log_floor (n div 1024))"
      by (simp add: div_less_iff_less_mult)
    with False show ?thesis by (simp add: log_floor.simps [of n])
  qed
qed

lemma log_floor_ge: "1024 ^ k \<le> n \<Longrightarrow> k \<le> log_floor n"
proof (rule ccontr)
  assume le: "1024 ^ k \<le> n" and "\<not> k \<le> log_floor n"
  then have "Suc (log_floor n) \<le> k" by simp
  then have "(1024::nat) ^ Suc (log_floor n) \<le> 1024 ^ k"
    by (intro power_increasing) simp_all
  with log_floor_upper [of n] le show False by simp
qed

lemma formatBytes_zero: "formatBytes 0 = ''0 B''"
  by (simp add: formatBytes_def)

lemma formatBytes_examples:
  "formatBytes 500 = ''500 B''"
  "formatBytes 1536 = ''1.5 KB''"
  "formatBytes 1073741824 = ''1 GB''"
  "formatBytes 1879048192 = ''1.75 GB''"
  "formatBytes 5497558138880 = ''5 TB''"
  by (simp_all add: formatBytes_eval)

text \<open>In the model every byte count from \<open>1024^5\<close> on gets the unit \<open>undefined\<close>.\<close>

lemma formatBytes_past_table:
  assumes "1024 ^ 5 \<le> bytes"
  shows "\<exists>m. formatBytes bytes = m @ '' undefined''"
proof -
  from log_floor_ge [OF assms] have "sizes_at (log_floor bytes) = ''undefined''"
    by (simp add: sizes_at_def sizes_def)
  moreover from assms have "bytes \<noteq> 0" by auto
  ultimately show ?thesis by (simp add: formatBytes_def Let_def)
qed

text \<open>
  C6: \<open>formatBytes\<close> is to render every byte count with one of the units B, KB, MB, GB
  and TB. At \<open>2^52\<close> bytes (4 PB) the index into the unit table is 5, past its end, and
  the result carries the text \<open>undefined\<close> where the claim has the unit TB.
\<close>

theorem formatBytes_four_petabytes:
  "log_floor 4503599627370496 = 5 \<and> formatBytes 4503599627370496 = ''4 undefined''"
  by (simp add: formatBytes_eval)

section \<open>Properties of basename\<close>

text \<open>
  \<open>basename\<close> of a path that ends in a name after a separator, or is just a name, is
  the name.
\<close>

lemma basename_name:
  assumes "dir = [] \<or> last dir = CHR ''/''" and "fname \<noteq> []" and "CHR ''/'' \<notin> set fname"
  shows "basename (dir @ fname) = fname"
proof -
  from assms(2) obtain xs x where fname: "fname = xs @ [x]"
    by (cases fname rule: rev_cases) auto
  with assms(3) have x: "x \<noteq> CHR ''/''" and xs: "\<forall>c\<in>set (rev xs). c \<noteq> CHR ''/''"
    by auto
  from x have d: "dropWhile (\<lambda>c. c = CHR ''/'') (rev (dir @ fname)) = x # rev xs @ rev dir"
    by (simp add: fname)
  have t: "takeWhile (\<lambda>c. c \<noteq> CHR ''/'') (x # rev xs @ rev dir) = x # rev xs"
  proof (cases dir rule: rev_cases)
    case Nil
    with x xs show ?thesis by simp
  next
    case (snoc ys y)
    with assms(1) have "y = CHR ''/''" by simp
    with snoc x xs show ?thesis by (simp add: takeWhile_tail)
  qed
  from d t show ?thesis by (simp add: basename_def fname)
qed

section \<open>Properties of GET /download\<close>

subsection \<open>The password check\<close>

lemma check_password_401:
  "check_password compare s password = Some r \<Longrightarrow> statusCode r = 401 \<and> ended r"
  by (auto simp: check_password_def send_def split: option.splits if_splits)


lemma get_download_count [simp]:
  "downloadCount (srv (get_download compare fs password w)) = downloadCount (srv w)"
  by (simp add: get_download_def respond_def split: option.splits sum.splits)

lemma download_reply_respond:
  "check_password compare (srv w) password = Some r \<Longrightarrow>
   download_reply compare fs password w =
     \<lparr>res = r, downloadedBytes = 0, total_bytes = 0, stream = Finished\<rparr>"
  by (simp add: download_reply_def get_download_def respond_def)

text \<open>
  The fixed part of the disposition is valid, so the header is refused for the file name
  only.
\<close>

lemma valid_header_text_append:
  "valid_header_text (u @ v) = (valid_header_text u \<and> valid_header_text v)"
  by (simp add: valid_header_text_def)

lemma valid_header_text_Cons:
  "valid_header_text (c # v) = (c \<notin> set invalid_header_chars \<and> valid_header_text v)"
  by (simp add: valid_header_text_def)

lemma valid_header_text_Nil: "valid_header_text []"
  by (simp add: valid_header_text_def)

lemmas valid_header_eval =
  valid_header_text_Cons valid_header_text_Nil valid_header_text_append
  invalid_header_chars_def dquote_def

lemma valid_fixed_texts:
  "valid_header_text ''application/octet-stream''"
  by (simp add: valid_header_eval)

lemma disposition_valid:
  "valid_header_value (disposition fileInfo) = valid_header_text (name fileInfo)"
  by (simp add: disposition_def valid_header_eval)

lemma download_headers_valid:
  "valid_header_text (name fileInfo) \<Longrightarrow>
   download_headers fileInfo new_response =
     Inr (download_head (name fileInfo) (size_bytes fileInfo))"
  using disposition_valid [of fileInfo]
  by (simp add: download_headers_def setHeader_def download_head_def valid_fixed_texts
      disposition_def)

lemma download_headers_invalid:
  "\<not> valid_header_text (name fileInfo) \<Longrightarrow>
   download_headers fileInfo new_response =
     Inl (store_header ''Content-Type'' (HStr ''application/octet-stream'') new_response)"
  using disposition_valid [of fileInfo]
  by (simp add: download_headers_def setHeader_def valid_fixed_texts)

lemma download_reply_stream:
  "check_password compare (srv w) password = None \<Longrightarrow> fs (filePath (srv w)) = Some content \<Longrightarrow>
   valid_header_text (basename (filePath (srv w))) \<Longrightarrow>
   download_reply compare fs password w =
     \<lparr>res = download_head (basename (filePath (srv w))) (length content),
      downloadedBytes = 0, total_bytes = length content, stream = Flowing\<rparr>"
  by (simp add: download_reply_def get_download_def getFileInfo_def download_headers_valid)

lemma download_reply_missing:
  "check_password compare (srv w) password = None \<Longrightarrow> fs (filePath (srv w)) = None \<Longrightarrow>
   download_reply compare fs password w =
     \<lparr>res = send 500 ''Error downloading file'' new_response,
      downloadedBytes = 0, total_bytes = 0, stream = Finished\<rparr>"
  by (simp add: download_reply_def get_download_def getFileInfo_def respond_def)

lemma download_reply_refused:
  "check_password compare (srv w) password = None \<Longrightarrow> fs (filePath (srv w)) = Some content \<Longrightarrow>
   \<not> valid_header_text (basename (filePath (srv w))) \<Longrightarrow>
   download_reply compare fs password w =
     \<lparr>res = send 500 ''Error downloading file''
              (store_header ''Content-Type'' (HStr ''application/octet-stream'') new_response),
      downloadedBytes = 0, total_bytes = 0, stream = Finished\<rparr>"
  by (simp add: download_reply_def get_download_def getFileInfo_def download_headers_invalid
      respond_def)

lemma download_head_status: "statusCode (download_head fname n) = 200"
  by (simp add: download_head_def store_header_def new_response_def)

lemma sample_name_valid: "valid_header_text (basename ''/srv/notes.txt'')"
  by (simp add: basename_def valid_header_eval)

text \<open>
  C1, as stated: on a server with a password, a request that supplies a password that does
  not match is answered with 401 and \<open>Invalid password\<close>. The server below is created
  with the password \<open>secret\<close>; the request supplies the empty string, which does not
  match, and is answered with \<open>Password required\<close>.
\<close>

theorem empty_password_not_invalid:
  "passwordHash (srv protected_world) = Some (sample_hashSync ''secret'') \<and>
   \<not> sample_compare [] (sample_hashSync ''secret'') \<and>
   statusCode (res (download_reply sample_compare sample_fs (Some []) protected_world)) = 401 \<and>
   body (res (download_reply sample_compare sample_fs (Some []) protected_world)) =
     ''Password required'' \<and>
   body (res (download_reply sample_compare sample_fs (Some []) protected_world)) \<noteq>
     ''Invalid password''"
proof -
  have h: "passwordHash (srv protected_world) = Some (sample_hashSync ''secret'')"
    by (simp add: protected_world_def new_world_def FileServer_def protected_options_def truthy_def)
  have c: "check_password sample_compare (srv protected_world) (Some []) =
             Some (send 401 ''Password required'' new_response)"
    by (simp add: check_password_def h truthy_def sample_hashSync_def)
  have n: "\<not> sample_compare [] (sample_hashSync ''secret'')"
    by (simp add: sample_compare_def sample_hashSync_def)
  from h n download_reply_respond [OF c, of sample_fs] show ?thesis
    by (simp add: send_def)
qed

text \<open>
  C1, amended: on a server that stores a password hash, a request to \<open>/download\<close> with no
  password parameter, or with the empty string as its value, is answered with 401 and the
  body \<open>Password required\<close>; a request with a non-empty password that the hash comparison
  rejects is answered with 401 and the body \<open>Invalid password\<close>; a request with a
  non-empty password that the comparison accepts goes on to the download, and when the
  file is there and its name, the part of the path after the last separator, has no
  character that a header value must not have, its response has status 200 and the file
  stream is started.
\<close>

theorem download_password_check:
  assumes "passwordHash (srv w) = Some h" and "h \<noteq> []"
  shows "(password = None \<or> password = Some [] \<longrightarrow>
            res (download_reply compare fs password w) =
              send 401 ''Password required'' new_response \<and>
            \<not> flowing (download_reply compare fs password w)) \<and>
         (password = Some p \<and> p \<noteq> [] \<and> \<not> compare p h \<longrightarrow>
            res (download_reply compare fs password w) =
              send 401 ''Invalid password'' new_response \<and>
            \<not> flowing (download_reply compare fs password w)) \<and>
         (password = Some p \<and> p \<noteq> [] \<and> compare p h \<and> fs (filePath (srv w)) = Some content \<and>
          filePath (srv w) = dir @ fname \<and> (dir = [] \<or> last dir = CHR ''/'') \<and>
          fname \<noteq> [] \<and> CHR ''/'' \<notin> set fname \<and> valid_header_text fname \<longrightarrow>
            statusCode (res (download_reply compare fs password w)) = 200 \<and>
            flowing (download_reply compare fs password w) \<and>
            emitted (get_download compare fs password w) = emitted w @ [DownloadStarted])"
proof (intro conjI impI)
  assume "password = None \<or> password = Some []"
  with assms have "check_password compare (srv w) password =
      Some (send 401 ''Password required'' new_response)"
    by (auto simp: check_password_def truthy_def)
  from download_reply_respond [OF this, of fs]
  show "res (download_reply compare fs password w) = send 401 ''Password required'' new_response"
    and "\<not> flowing (download_reply compare fs password w)" by (simp_all add: flowing_def)
next
  assume "password = Some p \<and> p \<noteq> [] \<and> \<not> compare p h"
  with assms have "check_password compare (srv w) password =
      Some (send 401 ''Invalid password'' new_response)"
    by (auto simp: check_password_def truthy_def)
  from download_reply_respond [OF this, of fs]
  show "res (download_reply compare fs password w) = send 401 ''Invalid password'' new_response"
    and "\<not> flowing (download_reply compare fs password w)" by (simp_all add: flowing_def)
next
  assume a: "password = Some p \<and> p \<noteq> [] \<and> compare p h \<and> fs (filePath (srv w)) = Some content \<and>
    filePath (srv w) = dir @ fname \<and> (dir = [] \<or> last dir = CHR ''/'') \<and>
    fname \<noteq> [] \<and> CHR ''/'' \<notin> set fname \<and> valid_header_text fname"
  then have pw: "password = Some p" "p \<noteq> []" "compare p h"
    and f: "fs (filePath (srv w)) = Some content"
    and path: "filePath (srv w) = dir @ fname"
    and nm: "dir = [] \<or> last dir = CHR ''/''" "fname \<noteq> []" "CHR ''/'' \<notin> set fname"
    and vn: "valid_header_text fname"
    by blast+
  from pw assms have c: "check_password compare (srv w) password = None"
    by (auto simp: check_password_def truthy_def)
  from basename_name [OF nm] path vn
  have v: "valid_header_text (basename (filePath (srv w)))" by simp
  from download_reply_stream [where fs = fs, OF c f v]
  show "statusCode (res (download_reply compare fs password w)) = 200"
    and "flowing (download_reply compare fs password w)"
    by (simp_all add: download_head_status flowing_def)
  from c f v show "emitted (get_download compare fs password w) = emitted w @ [DownloadStarted]"
    by (simp add: get_download_def getFileInfo_def download_headers_valid)
qed

text \<open>
  The three cases of \<open>download_password_check\<close> on the server with the password
  \<open>secret\<close>: no password, the password \<open>guess\<close>, and the password \<open>secret\<close>.
\<close>

theorem download_password_check_witness:
  "passwordHash (srv protected_world) = Some (sample_hashSync ''secret'') \<and>
   sample_hashSync ''secret'' \<noteq> [] \<and>
   res (download_reply sample_compare sample_fs None protected_world) =
     send 401 ''Password required'' new_response \<and>
   \<not> sample_compare ''guess'' (sample_hashSync ''secret'') \<and>
   res (download_reply sample_compare sample_fs (Some ''guess'') protected_world) =
     send 401 ''Invalid password'' new_response \<and>
   sample_compare ''secret'' (sample_hashSync ''secret'') \<and>
   sample_fs (filePath (srv protected_world)) = Some ''hello world'' \<and>
   filePath (srv protected_world) = ''/srv/'' @ ''notes.txt'' \<and>
   last ''/srv/'' = CHR ''/'' \<and> ''notes.txt'' \<noteq> [] \<and> CHR ''/'' \<notin> set ''notes.txt'' \<and>
   valid_header_text ''notes.txt'' \<and>
   statusCode (res (download_reply sample_compare sample_fs (Some ''secret'') protected_world)) = 200 \<and>
   flowing (download_reply sample_compare sample_fs (Some ''secret'') protected_world)"
proof -
  have h: "passwordHash (srv protected_world) = Some (sample_hashSync ''secret'')"
    by (simp add: protected_world_def new_world_def FileServer_def protected_options_def truthy_def)
  have ne: "sample_hashSync ''secret'' \<noteq> []"
    by (simp add: sample_hashSync_def)
  have g: "\<not> sample_compare ''guess'' (sample_hashSync ''secret'')"
    and s: "sample_compare ''secret'' (sample_hashSync ''secret'')"
    by (simp_all add: sample_compare_def sample_hashSync_def)
  have f: "sample_fs (filePath (srv protected_world)) = Some ''hello world''"
    by (simp add: protected_world_def new_world_def FileServer_def protected_options_def sample_fs_def)
  have v: "filePath (srv protected_world) = ''/srv/'' @ ''notes.txt''"
    "last ''/srv/'' = CHR ''/''" "''notes.txt'' \<noteq> []" "CHR ''/'' \<notin> set ''notes.txt''"
    "valid_header_text ''notes.txt''"
    by (simp_all add: protected_world_def new_world_def FileServer_def protected_options_def
        valid_header_eval)
  from download_password_check [OF h ne, where password = None and compare = sample_compare
      and fs = sample_fs]
  have 1: "res (download_reply sample_compare sample_fs None protected_world) =
     send 401 ''Password required'' new_response" by simp
  from download_password_check [OF h ne, where password = "Some ''guess''"
      and compare = sample_compare and fs = sample_fs and p = "''guess''"] g
  have 2: "res (download_reply sample_compare sample_fs (Some ''guess'') protected_world) =
     send 401 ''Invalid password'' new_response" by simp
  from download_password_check [OF h ne, where password = "Some ''secret''"
      and compare = sample_compare and fs = sample_fs and p = "''secret''"
      and content = "''hello world''" and dir = "''/srv/''" and fname = "''notes.txt''"] s f v
  have 3: "statusCode (res (download_reply sample_compare sample_fs (Some ''secret'') protected_world)) = 200 \<and>
   flowing (download_reply sample_compare sample_fs (Some ''secret'') protected_world)" by simp
  from h ne 1 g 2 s f v 3 show ?thesis by simp
qed

text \<open>
  C8, as stated: a request with the empty string as its password is answered with 401
  \<open>Password required\<close> also when the protecting password is the empty string. A server
  created with the empty string as its password stores no hash, and the request is served.
\<close>

theorem empty_protecting_password_serves:
  "opt_password empty_password_options = Some [] \<and>
   passwordHash (FileServer sample_hashSync empty_password_options) = None \<and>
   statusCode (res (download_reply sample_compare sample_fs (Some [])
     (new_world (FileServer sample_hashSync empty_password_options)))) = 200 \<and>
   flowing (download_reply sample_compare sample_fs (Some [])
     (new_world (FileServer sample_hashSync empty_password_options)))"
proof -
  let ?w = "new_world (FileServer sample_hashSync empty_password_options)"
  have h: "passwordHash (srv ?w) = None" "opt_password empty_password_options = Some []"
    by (simp_all add: new_world_def FileServer_def empty_password_options_def truthy_def)
  then have c: "check_password sample_compare (srv ?w) (Some []) = None"
    by (simp add: check_password_def)
  have f: "sample_fs (filePath (srv ?w)) = Some ''hello world''"
    by (simp add: new_world_def FileServer_def empty_password_options_def sample_fs_def)
  have v: "valid_header_text (basename (filePath (srv ?w)))"
    by (simp add: new_world_def FileServer_def empty_password_options_def sample_name_valid)
  from download_reply_stream [where fs = sample_fs, OF c f v] h show ?thesis
    by (simp add: new_world_def download_head_status flowing_def)
qed

text \<open>
  C8, amended: on a server that stores a password hash, a request to \<open>/download\<close> whose
  password parameter is absent or the empty string is answered with 401 and the body
  \<open>Password required\<close>, whatever the hash is and whatever the hash comparison would say:
  the distinction between missing and invalid looks at the presence of a non-empty value
  only. A server created with the empty string as its password stores no hash and checks
  no password.
\<close>

theorem empty_password_is_missing:
  assumes "passwordHash (srv w) = Some h" and "h \<noteq> []" and "\<not> truthy password"
  shows "res (download_reply compare fs password w) = send 401 ''Password required'' new_response \<and>
         statusCode (res (download_reply compare fs password w)) = 401 \<and>
         body (res (download_reply compare fs password w)) = ''Password required'' \<and>
         passwordHash (FileServer hashSync (options\<lparr>opt_password := Some []\<rparr>)) = None \<and>
         check_password compare (FileServer hashSync (options\<lparr>opt_password := Some []\<rparr>)) password'
           = None"
proof -
  from assms have "check_password compare (srv w) password =
      Some (send 401 ''Password required'' new_response)"
    by (auto simp: check_password_def truthy_def split: option.splits)
  from download_reply_respond [OF this, of fs]
  have 1: "res (download_reply compare fs password w) = send 401 ''Password required'' new_response"
    by simp
  have 2: "passwordHash (FileServer hashSync (options\<lparr>opt_password := Some []\<rparr>)) = None"
    by (simp add: FileServer_def truthy_def)
  then have "check_password compare (FileServer hashSync (options\<lparr>opt_password := Some []\<rparr>))
      password' = None"
    by (simp add: check_password_def)
  with 1 2 show ?thesis by (simp add: send_def)
qed

text \<open>
  \<open>empty_password_is_missing\<close> on the server with the password \<open>secret\<close>, with a
  comparison that would accept anything.
\<close>

theorem empty_password_is_missing_witness:
  "passwordHash (srv protected_world) = Some (sample_hashSync ''secret'') \<and>
   sample_hashSync ''secret'' \<noteq> [] \<and> \<not> truthy (Some []) \<and>
   statusCode (res (download_reply accept_all sample_fs (Some []) protected_world)) = 401 \<and>
   body (res (download_reply accept_all sample_fs (Some []) protected_world)) =
     ''Password required''"
proof -
  have h: "passwordHash (srv protected_world) = Some (sample_hashSync ''secret'')"
    by (simp add: protected_world_def new_world_def FileServer_def protected_options_def truthy_def)
  have ne: "sample_hashSync ''secret'' \<noteq> []"
    by (simp add: sample_hashSync_def)
  have e: "\<not> truthy (Some [])"
    by (simp add: truthy_def)
  from empty_password_is_missing [OF h ne e, of accept_all sample_fs] h ne e
  show ?thesis by (simp add: send_def)
qed

subsection \<open>The download counter\<close>

lemma filter_update_same:
  "i < length xs \<Longrightarrow> P y = P (xs ! i) \<Longrightarrow>
   length (filter P (xs[i := y])) = length (filter P xs)"
proof (induction xs arbitrary: i)
  case Nil
  then show ?case by simp
next
  case (Cons x xs)
  then show ?case by (cases i) auto
qed

lemma filter_update_new:
  "i < length xs \<Longrightarrow> \<not> P (xs ! i) \<Longrightarrow> P y \<Longrightarrow>
   length (filter P (xs[i := y])) = Suc (length (filter P xs))"
proof (induction xs arbitrary: i)
  case Nil
  then show ?case by simp
next
  case (Cons x xs)
  then show ?case by (cases i) auto
qed

lemma list_all_update:
  "list_all P xs \<Longrightarrow> P y \<Longrightarrow> list_all P (xs[i := y])"
  by (induction xs arbitrary: i) (auto split: nat.splits)

lemma list_all_nth: "list_all P xs \<Longrightarrow> i < length xs \<Longrightarrow> P (xs ! i)"
  by (simp add: list_all_length)

lemma download_headers_status:
  "download_headers fileInfo new_response = Inr r \<Longrightarrow> statusCode r = 200 \<and> \<not> ended r"
  by (auto simp: download_headers_def setHeader_def store_header_def new_response_def
      split: sum.splits if_splits)

lemma count_ok_get_download: "count_ok w \<Longrightarrow> count_ok (get_download compare fs password w)"
  by (auto simp: count_ok_def get_download_def respond_def stream_ok_def served_to_end_def
      send_def dest: check_password_401 download_headers_status
      split: option.splits sum.splits)

lemma count_ok_on_data:
  assumes ok: "count_ok w"
  shows "count_ok (on_data i chunk w)"
proof (cases "i < length (requests w) \<and> flowing (requests w ! i)")
  case False
  with ok show ?thesis by (auto simp: on_data_def)
next
  case True
  let ?t = "requests w ! i"
  let ?t' = "?t\<lparr>downloadedBytes := downloadedBytes ?t + length chunk,
                 res := res_write chunk (res ?t)\<rparr>"
  from ok True have "stream_ok ?t" by (simp add: count_ok_def list_all_nth)
  with True have a: "stream_ok ?t'" "served_to_end ?t' = served_to_end ?t"
    by (simp_all add: stream_ok_def served_to_end_def res_write_def flowing_def)
  from True a ok show ?thesis
    by (simp add: on_data_def count_ok_def Let_def list_all_update filter_update_same)
qed

lemma count_ok_on_error:
  assumes ok: "count_ok w"
  shows "count_ok (on_error i w)"
proof (cases "i < length (requests w) \<and> stream (requests w ! i) \<noteq> Finished")
  case False
  with ok show ?thesis by (auto simp: on_error_def)
next
  case True
  let ?t = "requests w ! i"
  let ?r = "if \<not> headersSent (res ?t) then send 500 ''Error downloading file'' (res ?t)
            else res ?t"
  let ?t' = "?t\<lparr>res := ?r, stream := Finished\<rparr>"
  from ok True have "stream_ok ?t" by (simp add: count_ok_def list_all_nth)
  with True have a: "stream_ok ?t'" "served_to_end ?t' = served_to_end ?t"
    by (simp_all add: stream_ok_def served_to_end_def send_def)
  from True a ok show ?thesis
    by (simp add: on_error_def count_ok_def Let_def list_all_update filter_update_same)
qed

lemma count_ok_on_end:
  assumes ok: "count_ok w"
  shows "count_ok (on_end i w)"
proof (cases "i < length (requests w) \<and> flowing (requests w ! i)")
  case False
  with ok show ?thesis by (auto simp: on_end_def)
next
  case True
  let ?t = "requests w ! i"
  let ?t' = "?t\<lparr>res := end_response (res ?t), stream := Finished\<rparr>"
  from ok True have "stream_ok ?t" by (simp add: count_ok_def list_all_nth)
  with True have a: "stream_ok ?t'" "\<not> served_to_end ?t" "served_to_end ?t'"
    by (simp_all add: stream_ok_def served_to_end_def end_response_def flowing_def)
  from True a ok show ?thesis
    by (simp add: on_end_def count_ok_def Let_def list_all_update filter_update_new)
qed

lemma count_ok_on_close:
  assumes ok: "count_ok w"
  shows "count_ok (on_close i w)"
proof (cases "i < length (requests w) \<and> flowing (requests w ! i)")
  case False
  with ok show ?thesis by (auto simp: on_close_def)
next
  case True
  let ?t = "requests w ! i"
  let ?t' = "?t\<lparr>stream := Paused\<rparr>"
  from ok True have "stream_ok ?t" by (simp add: count_ok_def list_all_nth)
  with True have a: "stream_ok ?t'" "served_to_end ?t' = served_to_end ?t"
    by (simp_all add: stream_ok_def served_to_end_def flowing_def)
  from True a ok show ?thesis
    by (simp add: on_close_def count_ok_def list_all_update filter_update_same)
qed

lemma count_ok_step: "count_ok w \<Longrightarrow> count_ok (step compare fs w e)"
  by (cases e)
    (simp_all add: count_ok_get_download count_ok_on_data count_ok_on_end count_ok_on_error
      count_ok_on_close)

lemma run_Cons: "run compare fs w (e # ins) = run compare fs (step compare fs w e) ins"
  by (simp add: run_def)

lemma run_snoc: "run compare fs w (ins @ [e]) = step compare fs (run compare fs w ins) e"
  by (simp add: run_def)

lemma count_ok_run: "count_ok w \<Longrightarrow> count_ok (run compare fs w ins)"
  by (induction ins arbitrary: w) (simp_all add: run_Cons count_ok_step, simp add: run_def)

lemma count_ok_new: "count_ok (new_world (FileServer hashSync options))"
  by (simp add: count_ok_def new_world_def FileServer_def)

lemma step_count:
  "downloadCount (srv (step compare fs w e)) =
     downloadCount (srv w) + (if completes w e then 1 else 0)"
  by (cases e) (auto simp: on_data_def on_end_def on_error_def on_close_def Let_def)

text \<open>
  What the counter counts: after any inputs it is the number of responses with status 200
  that \<open>pipe\<close> has ended, which are the file streams that have emitted \<open>end\<close>.
\<close>

lemma count_served_to_end:
  "getDownloadCount (srv (run compare fs (new_world (FileServer hashSync options)) ins)) =
     length (filter served_to_end
       (requests (run compare fs (new_world (FileServer hashSync options)) ins)))"
  using count_ok_run [OF count_ok_new, of compare fs hashSync options ins]
  by (simp add: count_ok_def getDownloadCount_def)

text \<open>
  A request whose stream is paused or finished without having been served to the end
  stays so, whatever comes: the counter never counts it.
\<close>

lemma left_out_step:
  assumes "i < length (requests w)" and "left_out (requests w ! i)"
  shows "i < length (requests (step compare fs w e)) \<and>
         left_out (requests (step compare fs w e) ! i)"
proof (cases e)
  case (Get_download password)
  with assms show ?thesis
    by (simp add: get_download_def respond_def nth_append split: option.splits sum.splits)
next
  case (Stream_data j chunk)
  with assms show ?thesis
    by (cases "j = i") (auto simp: on_data_def Let_def left_out_def flowing_def)
next
  case (Stream_end j)
  with assms show ?thesis
    by (cases "j = i") (auto simp: on_end_def Let_def left_out_def flowing_def)
next
  case (Stream_error j)
  with assms show ?thesis
    by (cases "j = i")
      (auto simp: on_error_def Let_def left_out_def served_to_end_def send_def)
next
  case (Client_close j)
  with assms show ?thesis
    by (cases "j = i") (auto simp: on_close_def left_out_def flowing_def)
qed

lemma left_out_run:
  "i < length (requests w) \<Longrightarrow> left_out (requests w ! i) \<Longrightarrow>
   i < length (requests (run compare fs w ins)) \<and>
   left_out (requests (run compare fs w ins) ! i)"
proof (induction ins arbitrary: w)
  case Nil
  then show ?case by (simp add: run_def)
next
  case (Cons e ins)
  from left_out_step [OF Cons.prems, of compare fs e]
  have "i < length (requests (step compare fs w e))"
    and "left_out (requests (step compare fs w e) ! i)" by simp_all
  from Cons.IH [OF this] show ?case by (simp add: run_Cons)
qed

text \<open>
  Five requests, two of them answered with 401 and one with a stream that fails half way:
  the counter stands at 2, and the statuses are 401, 200, 401, 200 and 200.
\<close>

lemmas server_eval =
  run_def new_world_def FileServer_def truthy_def
  get_download_def check_password_def respond_def getFileInfo_def send_def
  download_headers_def setHeader_def store_header_def disposition_def new_response_def
  on_data_def on_end_def on_error_def on_close_def flowing_def
  res_write_def end_response_def getDownloadCount_def Let_def basename_def
  valid_header_text_Cons valid_header_text_Nil valid_header_text_append
  invalid_header_chars_def dquote_def

lemma mixed_requests_count:
  "getDownloadCount (srv (run sample_compare sample_fs protected_world mixed_requests)) = 2 \<and>
   map (\<lambda>t. statusCode (res t))
     (requests (run sample_compare sample_fs protected_world mixed_requests)) =
     [401, 200, 401, 200, 200] \<and>
   map (\<lambda>t. ended (res t))
     (requests (run sample_compare sample_fs protected_world mixed_requests)) =
     [True, True, True, False, True]"
  by (simp add: server_eval mixed_requests_def protected_world_def
      protected_options_def sample_fs_def sample_compare_def sample_hashSync_def)

text \<open>
  C2: the counter is to be the number of downloads completed so far. Here a client
  downloads the file of 11 bytes: it receives the head with status 200 and
  \<open>Content-Length\<close> 11 and the 11 bytes of the file, and closes the connection before the
  file stream has emitted \<open>end\<close>. The download is delivered in full; the file stream is
  paused for good, and \<open>getDownloadCount\<close> is 0.
\<close>

theorem download_closed_before_end:
  "statusCode (res (requests (run sample_compare sample_fs open_world early_close) ! 0)) = 200 \<and>
   getHeader (res (requests (run sample_compare sample_fs open_world early_close) ! 0))
     ''Content-Length'' = Some (HNum 11) \<and>
   body (res (requests (run sample_compare sample_fs open_world early_close) ! 0)) =
     ''hello world'' \<and>
   delivered (requests (run sample_compare sample_fs open_world early_close) ! 0) \<and>
   stream (requests (run sample_compare sample_fs open_world early_close) ! 0) = Paused \<and>
   left_out (requests (run sample_compare sample_fs open_world early_close) ! 0) \<and>
   getDownloadCount (srv (run sample_compare sample_fs open_world early_close)) = 0"
  by (simp add: server_eval early_close_def open_world_def open_options_def sample_fs_def
      delivered_def left_out_def served_to_end_def getHeader_def)

subsection \<open>The response of a download\<close>










section \<open>Properties of start and stop\<close>

lemma start_free:
  "net (port s) = Bound \<Longrightarrow>
   start net s = (s\<lparr>server := Some \<lparr>lport = port s, listening = True\<rparr>\<rparr>, Resolved_port (port s))"
  by (simp add: start_def)

lemma start_retry_once:
  "net (port s) = Error_event ''EADDRINUSE'' \<Longrightarrow> net (port s + 1) = Bound \<Longrightarrow>
   snd (start net s) = Resolved_port (port s + 1) \<and> port (fst (start net s)) = port s + 1 \<and>
   server (fst (start net s)) = Some \<lparr>lport = port s + 1, listening = True\<rparr>"
  by (simp add: start_def Let_def)

lemma start_other_error:
  "net (port s) = Error_event code \<Longrightarrow> code \<noteq> ''EADDRINUSE'' \<Longrightarrow>
   snd (start net s) = Rejected_start code"
  by (simp add: start_def Let_def)

lemma start_throws:
  "net (port s) = Throws e \<Longrightarrow> start net s = (s, Rejected_start e)"
  by (simp add: start_def)

lemma start_resolves_near:
  "snd (start net s) = Resolved_port p \<Longrightarrow> p = port s \<or> p = port s + 1"
  by (auto simp: start_def Let_def split: bind_result.splits if_splits)

text \<open>The second bind settles nothing when it fails, whatever the failure is.\<close>

lemma start_second_failure:
  "net (port s) = Error_event ''EADDRINUSE'' \<Longrightarrow> net (port s + 1) \<noteq> Bound \<Longrightarrow>
   \<exists>e. snd (start net s) = Uncaught e"
  by (auto simp: start_def Let_def split: bind_result.splits)

text \<open>
  C3, as stated: on a port conflict \<open>start\<close> goes on to the next port, once per conflict,
  until a port is free, and resolves with it. With the ports 3000 and 3001 taken and 3002
  free, a server on port 3000 tries 3001 and stops there: the promise is not resolved
  with 3002.
\<close>

theorem start_second_conflict:
  "port (FileServer sample_hashSync open_options) = 3000 \<and>
   busy_net 3000 = Error_event ''EADDRINUSE'' \<and>
   busy_net 3001 = Error_event ''EADDRINUSE'' \<and>
   busy_net 3002 = Bound \<and>
   snd (start busy_net (FileServer sample_hashSync open_options)) = Uncaught ''EADDRINUSE'' \<and>
   snd (start busy_net (FileServer sample_hashSync open_options)) \<noteq> Resolved_port 3002 \<and>
   port (fst (start busy_net (FileServer sample_hashSync open_options))) = 3001"
  by (simp add: start_def FileServer_def open_options_def busy_net_def Let_def)

text \<open>
  C3, amended: \<open>start\<close> binds the requested port and resolves with it when that
  succeeds. When the bind fails with a port conflict, \<open>start\<close> tries the next higher
  port, once, and when that port is free it resolves with it, the port of the server
  being the bound one. Any other error of the first bind, an \<open>error\<close> event or an
  exception of \<open>listen\<close>, rejects. \<open>start\<close> never resolves with a port other than the
  requested one and the next.
\<close>

theorem start_retries_once:
  "(net (port s) = Bound \<longrightarrow>
      snd (start net s) = Resolved_port (port s) \<and>
      server (fst (start net s)) = Some \<lparr>lport = port s, listening = True\<rparr>) \<and>
   (net (port s) = Error_event ''EADDRINUSE'' \<and> net (port s + 1) = Bound \<longrightarrow>
      snd (start net s) = Resolved_port (port s + 1) \<and>
      port (fst (start net s)) = port s + 1 \<and>
      server (fst (start net s)) = Some \<lparr>lport = port s + 1, listening = True\<rparr>) \<and>
   (net (port s) = Error_event code \<and> code \<noteq> ''EADDRINUSE'' \<longrightarrow>
      snd (start net s) = Rejected_start code) \<and>
   (net (port s) = Throws e \<longrightarrow> snd (start net s) = Rejected_start e) \<and>
   (snd (start net s) = Resolved_port p \<longrightarrow> p = port s \<or> p = port s + 1)"
proof (intro conjI impI)
  assume "net (port s) = Bound"
  then show "snd (start net s) = Resolved_port (port s)"
    and "server (fst (start net s)) = Some \<lparr>lport = port s, listening = True\<rparr>"
    by (simp_all add: start_free)
next
  assume a: "net (port s) = Error_event ''EADDRINUSE'' \<and> net (port s + 1) = Bound"
  then have "net (port s) = Error_event ''EADDRINUSE''" and "net (port s + 1) = Bound"
    by simp_all
  from start_retry_once [OF this]
  show "snd (start net s) = Resolved_port (port s + 1)"
    and "port (fst (start net s)) = port s + 1"
    and "server (fst (start net s)) = Some \<lparr>lport = port s + 1, listening = True\<rparr>"
    by simp_all
next
  assume "net (port s) = Error_event code \<and> code \<noteq> ''EADDRINUSE''"
  then show "snd (start net s) = Rejected_start code"
    by (simp add: start_other_error)
next
  assume "net (port s) = Throws e"
  then show "snd (start net s) = Rejected_start e"
    by (simp add: start_throws)
next
  assume "snd (start net s) = Resolved_port p"
  then show "p = port s \<or> p = port s + 1"
    by (rule start_resolves_near)
qed

text \<open>
  \<open>start_retries_once\<close> on a free port, for a second server on the port 3002 that a
  first server holds, without the permission to bind, and on a refused port number.
\<close>

theorem start_retries_once_witness:
  "free_net (port second_server) = Bound \<and>
   snd (start free_net second_server) = Resolved_port 3002 \<and>
   first_server_net (port second_server) = Error_event ''EADDRINUSE'' \<and>
   first_server_net (port second_server + 1) = Bound \<and>
   snd (start first_server_net second_server) = Resolved_port 3003 \<and>
   port (fst (start first_server_net second_server)) = 3003 \<and>
   (3003 = port second_server \<or> 3003 = port second_server + 1) \<and>
   denied_net (port second_server) = Error_event ''EACCES'' \<and>
   ''EACCES'' \<noteq> ''EADDRINUSE'' \<and>
   snd (start denied_net second_server) = Rejected_start ''EACCES'' \<and>
   refusing_net (port second_server) = Throws ''ERR_SOCKET_BAD_PORT'' \<and>
   snd (start refusing_net second_server) = Rejected_start ''ERR_SOCKET_BAD_PORT''"
proof -
  have p: "port second_server = 3002"
    by (simp add: second_server_def FileServer_def)
  have 1: "free_net (port second_server) = Bound"
    by (simp add: free_net_def)
  have 2: "first_server_net (port second_server) = Error_event ''EADDRINUSE''"
    "first_server_net (port second_server + 1) = Bound"
    by (simp_all add: first_server_net_def p)
  have 3: "denied_net (port second_server) = Error_event ''EACCES''"
    "''EACCES'' \<noteq> ''EADDRINUSE''"
    by (simp_all add: denied_net_def)
  have 4: "refusing_net (port second_server) = Throws ''ERR_SOCKET_BAD_PORT''"
    by (simp add: refusing_net_def)
  from start_retries_once [of free_net second_server] 1
  have a: "snd (start free_net second_server) = Resolved_port 3002"
    by (simp add: p)
  from start_retries_once [of first_server_net second_server] 2
  have b: "snd (start first_server_net second_server) = Resolved_port 3003"
    "port (fst (start first_server_net second_server)) = 3003"
    by (simp_all add: p)
  from start_retries_once [of first_server_net second_server _ _ 3003] b
  have e: "3003 = port second_server \<or> 3003 = port second_server + 1"
    by blast
  from start_retries_once [of denied_net second_server "''EACCES''"] 3
  have c: "snd (start denied_net second_server) = Rejected_start ''EACCES''"
    by simp
  from start_retries_once [of refusing_net second_server _ "''ERR_SOCKET_BAD_PORT''"] 4
  have d: "snd (start refusing_net second_server) = Rejected_start ''ERR_SOCKET_BAD_PORT''"
    by simp
  from 1 2 3 4 a b c d e show ?thesis by simp
qed

text \<open>
  C9: \<open>stop\<close> on a server that was never started resolves and changes nothing; \<open>stop\<close>
  after \<open>stop\<close> resolves and changes nothing; and \<open>stop\<close> resolves in every state, its
  promise having no other outcome.
\<close>

theorem stop_idempotent:
  "stop (FileServer hashSync options) = (FileServer hashSync options, Resolved_stop) \<and>
   stop (fst (stop s)) = (fst (stop s), Resolved_stop) \<and>
   snd (stop s) = Resolved_stop"
  by (simp add: stop_def FileServer_def split: option.splits)

section \<open>Properties of the tunnel\<close>

subsection \<open>The matcher and the pattern\<close>

lemma label_stops_at_suffix:
  "takeWhile is_label_char (url_suffix @ post) = [] \<and>
   dropWhile is_label_char (url_suffix @ post) = url_suffix @ post"
  by (simp add: url_suffix_def is_label_char_def)

lemma takeWhile_label:
  "\<forall>c\<in>set label. is_label_char c \<Longrightarrow>
   takeWhile is_label_char (label @ url_suffix @ post) = label \<and>
   dropWhile is_label_char (label @ url_suffix @ post) = url_suffix @ post"
  by (induction label) (simp_all add: label_stops_at_suffix)

text \<open>Where a word of the pattern starts, the matcher finds exactly that word.\<close>

lemma match_here_complete:
  assumes "is_tunnel_url u"
  shows "match_here (u @ post) = Some u"
proof -
  from assms obtain label where l: "label \<noteq> []" "\<forall>c\<in>set label. is_label_char c"
    and u: "u = url_scheme @ label @ url_suffix"
    by (auto simp: is_tunnel_url_def)
  from takeWhile_label [OF l(2), of post] l(1) show ?thesis
    by (simp add: match_here_def u Let_def)
qed

lemma match_here_sound:
  assumes "match_here s = Some u"
  shows "is_tunnel_url u \<and> prefix u s"
proof -
  let ?r = "drop (length url_scheme) s"
  let ?label = "takeWhile is_label_char ?r"
  from assms have p: "prefix url_scheme s" and ne: "?label \<noteq> []"
    and suf: "prefix url_suffix (dropWhile is_label_char ?r)"
    and u: "u = url_scheme @ ?label @ url_suffix"
    by (auto simp: match_here_def Let_def split: if_splits)
  have lab: "\<forall>c\<in>set ?label. is_label_char c"
    by (auto dest: set_takeWhileD)
  from ne lab u have 1: "is_tunnel_url u" by (auto simp: is_tunnel_url_def)
  from p obtain r where s: "s = url_scheme @ r" by (auto simp: prefix_def)
  from suf obtain z where d: "dropWhile is_label_char ?r = url_suffix @ z"
    by (auto simp: prefix_def)
  have "?r = ?label @ dropWhile is_label_char ?r" by simp
  with d have "?r = ?label @ url_suffix @ z" by simp
  with s have "s = u @ z" by (simp add: u)
  then have "prefix u s" by (simp add: prefix_def)
  with 1 show ?thesis by simp
qed

text \<open>
  \<open>match_url\<close> returns a word of the pattern that occurs in the text, at the leftmost
  position where a word of the pattern starts; it returns nothing only when no word of
  the pattern occurs.
\<close>

lemma match_url_sound:
  "match_url s = Some u \<Longrightarrow>
   \<exists>pre post. s = pre @ u @ post \<and> is_tunnel_url u \<and>
     (\<forall>k<length pre. match_here (drop k s) = None)"
proof (induction s)
  case Nil
  then show ?case by simp
next
  case (Cons c cs)
  show ?case
  proof (cases "match_here (c # cs)")
    case (Some v)
    with Cons.prems have "v = u" by simp
    with Some match_here_sound [of "c # cs" u] obtain post where
      "c # cs = u @ post" "is_tunnel_url u" by (auto simp: prefix_def)
    then have "c # cs = [] @ u @ post \<and> is_tunnel_url u \<and>
       (\<forall>k<length ([]::string). match_here (drop k (c # cs)) = None)" by simp
    then show ?thesis by blast
  next
    case None
    with Cons.prems have "match_url cs = Some u" by simp
    from Cons.IH [OF this] obtain pre post where
      a: "cs = pre @ u @ post" "is_tunnel_url u" "\<forall>k<length pre. match_here (drop k cs) = None"
      by blast
    have "\<forall>k<length (c # pre). match_here (drop k (c # cs)) = None"
    proof (intro allI impI)
      fix k assume "k < length (c # pre)"
      then show "match_here (drop k (c # cs)) = None"
        using None a(3) by (cases k) auto
    qed
    with a(1,2) have "c # cs = (c # pre) @ u @ post \<and> is_tunnel_url u \<and>
       (\<forall>k<length (c # pre). match_here (drop k (c # cs)) = None)" by simp
    then show ?thesis by blast
  qed
qed

lemma match_url_complete:
  "is_tunnel_url u \<Longrightarrow> match_url (pre @ u @ post) \<noteq> None"
proof (induction pre)
  case Nil
  from match_here_complete [OF Nil, of post] have m: "match_here (u @ post) = Some u" .
  then have "u @ post \<noteq> []" by (auto simp: match_here_def url_scheme_def split: if_splits)
  then obtain c cs where "u @ post = c # cs" by (cases "u @ post") auto
  with m show ?case by simp
next
  case (Cons c pre)
  then show ?case by (simp split: option.splits)
qed

lemma match_url_nonempty: "match_url s = Some u \<Longrightarrow> u \<noteq> []"
  by (induction s)
    (auto simp: match_here_def Let_def url_scheme_def split: option.splits if_splits)


text \<open>The first match of a list of chunks is the match of the first chunk that has one.\<close>

lemma first_match_first:
  "first_match outs = Some u \<Longrightarrow>
   \<exists>before out after. outs = before @ out # after \<and>
     (\<forall>b\<in>set before. match_url b = None) \<and> match_url out = Some u"
proof (induction outs)
  case Nil
  then show ?case by simp
next
  case (Cons out outs)
  show ?case
  proof (cases "match_url out")
    case (Some v)
    with Cons.prems have "out # outs = [] @ out # outs \<and>
        (\<forall>b\<in>set ([]::string list). match_url b = None) \<and> match_url out = Some u"
      by simp
    then show ?thesis by blast
  next
    case None
    with Cons.prems have "first_match outs = Some u" by simp
    from Cons.IH [OF this] obtain before out' after where
      "outs = before @ out' # after" "\<forall>b\<in>set before. match_url b = None"
      "match_url out' = Some u" by blast
    with None have "out # outs = (out # before) @ out' # after \<and>
        (\<forall>b\<in>set (out # before). match_url b = None) \<and> match_url out' = Some u"
      by simp
    then show ?thesis by blast
  qed
qed

lemma first_match_none:
  "first_match outs = None \<longleftrightarrow> (\<forall>out\<in>set outs. match_url out = None)"
  by (induction outs) (auto split: option.splits)

lemmas match_eval =
  match_here_def url_scheme_def url_suffix_def is_label_char_def Let_def

lemma match_url_example:
  "match_url ''INF |  https://brave-mountain-1234.trycloudflare.com  |'' =
     Some ''https://brave-mountain-1234.trycloudflare.com''"
  by (simp add: match_eval)

subsection \<open>Runs of a started tunnel\<close>

lemma tunnel_run_Cons: "tunnel_run t (e # ins) = tunnel_run (tunnel_step t e) ins"
  by (simp add: tunnel_run_def)

lemma tunnel_run_append: "tunnel_run t (ins @ ins') = tunnel_run (tunnel_run t ins) ins'"
  by (simp add: tunnel_run_def)

lemma only_outputs_Cons: "only_outputs (e # ins) = (is_output e \<and> only_outputs ins)"
  by (simp add: only_outputs_def)

lemma is_output_output_of: "is_output e \<Longrightarrow> \<exists>out. output_of e = Some out"
  by (cases e) simp_all

lemma only_outputs_no_Stop: "only_outputs ins \<Longrightarrow> Stop \<notin> set ins"
  by (induction ins) (auto simp: only_outputs_def)

lemma outputs_Cons:
  "outputs (e # ins) = (case output_of e of None \<Rightarrow> outputs ins | Some out \<Rightarrow> out # outputs ins)"
  by (simp add: outputs_def List.map_filter_simps split: option.splits)

lemma captured_stderr_Cons:
  "captured_stderr (e # ins) =
     (case stderr_of e of None \<Rightarrow> captured_stderr ins | Some out \<Rightarrow> out @ captured_stderr ins)"
  by (simp add: captured_stderr_def List.map_filter_simps split: option.splits)

lemma step_keeps_url:
  assumes "truthy (tunnelUrl t)" and "e \<noteq> Stop"
  shows "tunnelUrl (tunnel_step t e) = tunnelUrl t \<and> process (tunnel_step t e) = process t"
  using assms
  by (cases e) (auto simp: parseForUrl_def on_exit_def on_timeout_def Let_def split: option.splits)

lemma step_keeps_settled:
  "started t \<noteq> Pending \<Longrightarrow> started (tunnel_step t e) = started t"
  by (cases e)
    (auto simp: parseForUrl_def on_exit_def on_timeout_def tunnel_stop_def settle_def Let_def
      split: option.splits)

lemma run_keeps_url:
  "truthy (tunnelUrl t) \<Longrightarrow> Stop \<notin> set ins \<Longrightarrow>
   tunnelUrl (tunnel_run t ins) = tunnelUrl t \<and> process (tunnel_run t ins) = process t"
proof (induction ins arbitrary: t)
  case Nil
  then show ?case by (simp add: tunnel_run_def)
next
  case (Cons e ins)
  from Cons.prems have e: "e \<noteq> Stop" and rest: "Stop \<notin> set ins" by auto
  from step_keeps_url [OF Cons.prems(1) e]
  have k: "tunnelUrl (tunnel_step t e) = tunnelUrl t" "process (tunnel_step t e) = process t"
    by simp_all
  with Cons.prems(1) have "truthy (tunnelUrl (tunnel_step t e))" by simp
  from Cons.IH [OF this rest] k show ?case by (simp add: tunnel_run_Cons)
qed

lemma run_keeps_settled:
  "started t \<noteq> Pending \<Longrightarrow> started (tunnel_run t ins) = started t"
proof (induction ins arbitrary: t)
  case Nil
  then show ?case by (simp add: tunnel_run_def)
next
  case (Cons e ins)
  from step_keeps_settled [OF Cons.prems, of e] Cons.prems
  have "started (tunnel_step t e) \<noteq> Pending" "started (tunnel_step t e) = started t"
    by simp_all
  with Cons.IH [of "tunnel_step t e"] show ?case by (simp add: tunnel_run_Cons)
qed

text \<open>Whatever happens, \<open>stderr\<close> holds all that came on stderr, in its order.\<close>

lemma step_collects_stderr:
  "stderr (tunnel_step t e) =
     stderr t @ (case stderr_of e of None \<Rightarrow> [] | Some out \<Rightarrow> out)"
  by (cases e)
    (auto simp: parseForUrl_def on_exit_def on_timeout_def tunnel_stop_def Let_def
      split: option.splits)

lemma run_collects_stderr:
  "stderr (tunnel_run t ins) = stderr t @ captured_stderr ins"
proof (induction ins arbitrary: t)
  case Nil
  then show ?case by (simp add: tunnel_run_def captured_stderr_def List.map_filter_simps)
next
  case (Cons e ins)
  then show ?case
    by (simp add: tunnel_run_Cons step_collects_stderr captured_stderr_Cons
        split: option.splits)
qed

text \<open>An exit with code 0 settles nothing, in any state.\<close>

lemma exit_zero_keeps_started:
  "started (tunnel_step t (Exit (Some 0))) = started t \<and>
   tunnelUrl (tunnel_step t (Exit (Some 0))) = tunnelUrl t"
  by (simp add: on_exit_def Let_def)

text \<open>
  An exit with another code, without a URL: a pending start is rejected with the exit
  message, a settled one stays as it is.
\<close>

lemma exit_nonzero_step:
  "code \<noteq> Some 0 \<Longrightarrow> \<not> truthy (tunnelUrl t) \<Longrightarrow>
   started (tunnel_step t (Exit code)) =
     (if started t = Pending then Rejected (exit_message code (stderr t)) else started t)"
  by (simp add: on_exit_def settle_def Let_def)

text \<open>
  While only output arrives at a tunnel that has no URL and whose start is pending, the
  URL is the first match of the chunks so far, and the start is resolved with it.
\<close>

lemma run_outputs:
  "only_outputs ins \<Longrightarrow> tunnelUrl t = None \<Longrightarrow> started t = Pending \<Longrightarrow>
   tunnelUrl (tunnel_run t ins) = first_match (outputs ins) \<and>
   started (tunnel_run t ins) =
     (case first_match (outputs ins) of None \<Rightarrow> Pending | Some u \<Rightarrow> Resolved u) \<and>
   process (tunnel_run t ins) = process t"
proof (induction ins arbitrary: t)
  case Nil
  then show ?case by (simp add: tunnel_run_def outputs_def List.map_filter_simps)
next
  case (Cons e ins)
  from Cons.prems(1) have io: "is_output e" and rest: "only_outputs ins"
    by (simp_all add: only_outputs_Cons)
  from io obtain out where out: "output_of e = Some out"
    by (auto dest: is_output_output_of)
  from rest have ns: "Stop \<notin> set ins" by (rule only_outputs_no_Stop)
  show ?case
  proof (cases "match_url out")
    case None
    with out Cons.prems(2,3) have
      "tunnelUrl (tunnel_step t e) = None" "started (tunnel_step t e) = Pending"
      "process (tunnel_step t e) = process t"
      by (cases e; simp add: parseForUrl_def)+
    with Cons.IH [OF rest, of "tunnel_step t e"] out None show ?thesis
      by (simp add: tunnel_run_Cons outputs_Cons)
  next
    case (Some u)
    then have ne: "u \<noteq> []" by (rule match_url_nonempty)
    from out Some Cons.prems(2,3) have s:
      "tunnelUrl (tunnel_step t e) = Some u" "started (tunnel_step t e) = Resolved u"
      "process (tunnel_step t e) = process t"
      by (cases e; simp add: parseForUrl_def truthy_def settle_def)+
    from s(1) ne have tr: "truthy (tunnelUrl (tunnel_step t e))" by (simp add: truthy_def)
    from run_keeps_url [OF tr ns] run_keeps_settled [of "tunnel_step t e" ins] s out Some
    show ?thesis by (simp add: tunnel_run_Cons outputs_Cons)
  qed
qed

lemma spawned_state:
  "tunnelUrl spawned = None \<and> started spawned = Pending \<and> process spawned \<and>
   stderr spawned = [] \<and> exits spawned = []"
  by (simp add: spawned_def tunnel_start_def CloudflareTunnel_def)

text \<open>
  C4, as stated: an exit of the subprocess before a URL was seen makes \<open>start\<close> fail with
  an error that has the exit code, for every such exit. After an exit with code 0 the
  start is still pending; it fails only when the timer fires, with the timeout message,
  which has no exit code.
\<close>

theorem exit_zero_does_not_reject:
  "tunnelUrl (tunnel_run spawned (quiet_exit @ [Exit (Some 0)])) = None \<and>
   started (tunnel_run spawned (quiet_exit @ [Exit (Some 0)])) = Pending \<and>
   exits (tunnel_run spawned (quiet_exit @ [Exit (Some 0)])) = [Some 0] \<and>
   started (tunnel_run spawned (quiet_exit @ [Exit (Some 0), Timeout])) =
     Rejected ''Timeout waiting for tunnel URL. Make sure cloudflared is installed.''"
  by (simp add: tunnel_run_def quiet_exit_def spawned_def tunnel_start_def CloudflareTunnel_def
      parseForUrl_def on_exit_def on_timeout_def tunnel_stop_def timeout_message_def
      truthy_def settle_def match_eval)

text \<open>
  After the timer has fired, \<open>stop\<close> has killed the process and the exit arrives with the
  code \<open>null\<close>: the start keeps the timeout message.
\<close>

lemma exit_after_timeout:
  "started (tunnel_run spawned [Timeout, Exit None]) =
     Rejected ''Timeout waiting for tunnel URL. Make sure cloudflared is installed.''"
  by (simp add: tunnel_run_def spawned_def tunnel_start_def CloudflareTunnel_def
      on_exit_def on_timeout_def tunnel_stop_def timeout_message_def truthy_def settle_def)

text \<open>
  C4, amended: when the subprocess exits with a code other than 0 (a number, or \<open>null\<close>
  after a signal) while no URL has been seen and the start is still pending, that is, not
  already rejected by the timer or by an \<open>error\<close> event of the process, \<open>start\<close> is
  rejected with the message \<open>cloudflared exited with code\<close>, the code, and, when anything
  was written to stderr, a colon and all of that text. No URL and a pending start is what
  there is after output in which no chunk has a match of the URL pattern. An exit with
  code 0 never settles the start, whatever came before.
\<close>

theorem exit_before_url_rejects:
  "(started (tunnel_run spawned ins) = Pending \<and> \<not> truthy (tunnelUrl (tunnel_run spawned ins)) \<and>
    code \<noteq> Some 0 \<longrightarrow>
      started (tunnel_run spawned (ins @ [Exit code])) =
        Rejected (''cloudflared exited with code '' @ show_code code @
          (if captured_stderr ins \<noteq> [] then '': '' @ captured_stderr ins else []))) \<and>
   (only_outputs ins \<and> first_match (outputs ins) = None \<longrightarrow>
      started (tunnel_run spawned ins) = Pending \<and> tunnelUrl (tunnel_run spawned ins) = None) \<and>
   started (tunnel_run spawned (ins @ [Exit (Some 0)])) = started (tunnel_run spawned ins)"
proof (intro conjI impI)
  let ?t = "tunnel_run spawned ins"
  assume a: "started ?t = Pending \<and> \<not> truthy (tunnelUrl ?t) \<and> code \<noteq> Some 0"
  from run_collects_stderr [of spawned ins] spawned_state
  have b: "stderr ?t = captured_stderr ins" by simp
  from a exit_nonzero_step [of code ?t] b
  show "started (tunnel_run spawned (ins @ [Exit code])) =
        Rejected (''cloudflared exited with code '' @ show_code code @
          (if captured_stderr ins \<noteq> [] then '': '' @ captured_stderr ins else []))"
    by (simp add: tunnel_run_append tunnel_run_Cons tunnel_run_def exit_message_def)
next
  assume "only_outputs ins \<and> first_match (outputs ins) = None"
  with run_outputs [of ins spawned] spawned_state
  show "started (tunnel_run spawned ins) = Pending"
    and "tunnelUrl (tunnel_run spawned ins) = None" by simp_all
next
  from exit_zero_keeps_started [of "tunnel_run spawned ins"]
  show "started (tunnel_run spawned (ins @ [Exit (Some 0)])) = started (tunnel_run spawned ins)"
    by (simp add: tunnel_run_append tunnel_run_Cons tunnel_run_def)
qed

text \<open>
  \<open>exit_before_url_rejects\<close> for a subprocess that writes one line to stderr and exits
  with code 1.
\<close>

theorem exit_before_url_rejects_witness:
  "only_outputs quiet_exit \<and> first_match (outputs quiet_exit) = None \<and>
   started (tunnel_run spawned quiet_exit) = Pending \<and>
   \<not> truthy (tunnelUrl (tunnel_run spawned quiet_exit)) \<and>
   Some (1::nat) \<noteq> Some 0 \<and>
   started (tunnel_run spawned (quiet_exit @ [Exit (Some 1)])) =
     Rejected ''cloudflared exited with code 1: ERR failed to request quick Tunnel'' \<and>
   started (tunnel_run spawned (quiet_exit @ [Exit (Some 0)])) = Pending"
proof -
  have 1: "only_outputs quiet_exit"
    by (simp add: only_outputs_def quiet_exit_def)
  have 2: "first_match (outputs quiet_exit) = None"
    by (simp add: outputs_Cons outputs_def List.map_filter_simps quiet_exit_def match_eval)
  have 3: "Some (1::nat) \<noteq> Some 0"
    by simp
  have 4: "captured_stderr quiet_exit = ''ERR failed to request quick Tunnel''"
    by (simp add: captured_stderr_def List.map_filter_simps quiet_exit_def)
  from exit_before_url_rejects [of quiet_exit "Some 1"] 1 2
  have 5: "started (tunnel_run spawned quiet_exit) = Pending"
    and 6: "tunnelUrl (tunnel_run spawned quiet_exit) = None"
    and 7: "started (tunnel_run spawned (quiet_exit @ [Exit (Some 0)])) = Pending"
    by simp_all
  from 6 have 8: "\<not> truthy (tunnelUrl (tunnel_run spawned quiet_exit))"
    by (simp add: truthy_def)
  from exit_before_url_rejects [of quiet_exit "Some 1"] 5 8 4
  have 9: "started (tunnel_run spawned (quiet_exit @ [Exit (Some 1)])) =
     Rejected ''cloudflared exited with code 1: ERR failed to request quick Tunnel''"
    by (simp add: show_code_def show_nat.simps digit_char_def)
  from 1 2 3 5 7 8 9 show ?thesis by simp
qed



end
